theory Spec2Isabelle
  imports Complex_Main "HOL-Library.Sublist"
begin

section \<open>Python values and exceptions\<close>

text \<open>
  The program is \<^verbatim>\<open>detect.py\<close>. Python numbers are modelled in exact arithmetic:
  a coordinate, a confidence and a timestamp are a \<^typ>\<open>real\<close>, so rounding of
  floating-point operations is not part of the model. Every exception the modelled code
  can raise is a value of \<open>error\<close>, and a function that can raise returns
  \<open>error + 'a\<close> with \<open>Inl\<close> for the exception.
\<close>

datatype error =
    IndexError
  | ValueError
  | ZeroDivisionError
  | AttributeError
  | JSONDecodeError
  | FileNotFoundError string

text \<open>
  The builtin \<^verbatim>\<open>max\<close> on a sequence: it raises \<^verbatim>\<open>ValueError\<close> on an empty one and
  otherwise walks the sequence keeping the largest item seen so far.
\<close>

fun py_max :: "real list \<Rightarrow> error + real" where
  "py_max [] = Inl ValueError"
| "py_max (v # vs) = Inr (fold max vs v)"

text \<open>True division \<^verbatim>\<open>a / b\<close>: \<^verbatim>\<open>ZeroDivisionError\<close> when the divisor is zero.\<close>

definition true_div :: "real \<Rightarrow> real \<Rightarrow> error + real" where
  "true_div a b = (if b = 0 then Inl ZeroDivisionError else Inr (a / b))"

text \<open>The comprehension \<^verbatim>\<open>[val / max_val for val in flattened]\<close>: the first failing
  division ends it.\<close>

fun div_each :: "real list \<Rightarrow> real \<Rightarrow> error + real list" where
  "div_each [] m = Inr []"
| "div_each (v # vs) m =
     (case true_div v m of
        Inl e \<Rightarrow> Inl e
      | Inr q \<Rightarrow> (case div_each vs m of Inl e \<Rightarrow> Inl e | Inr qs \<Rightarrow> Inr (q # qs)))"

section \<open>The landmark normalizer\<close>

text \<open>
  \<^verbatim>\<open>
  def preprocess_landmarks(landmarks):
      base_x, base_y = landmarks[0][0], landmarks[0][1]
      relative_landmarks = [[x - base_x, y - base_y] for x, y in landmarks]
      flattened = list(itertools.chain.from_iterable(relative_landmarks))
      max_val = max(map(abs, flattened)) if flattened else 1.0
      normalized = [val / max_val for val in flattened] if max_val != 0 else flattened
      return normalized
  \<close>
  A landmark is a pair of coordinates, as \<^verbatim>\<open>extract_landmarks\<close> builds it.
  \<^verbatim>\<open>landmarks[0]\<close> raises \<^verbatim>\<open>IndexError\<close> on the empty list.
\<close>

definition flatten :: "(real \<times> real) list \<Rightarrow> real list" where
  "flatten ps = concat (map (\<lambda>(x, y). [x, y]) ps)"

definition preprocess_landmarks :: "(real \<times> real) list \<Rightarrow> error + real list" where
  "preprocess_landmarks landmarks =
     (case landmarks of
        [] \<Rightarrow> Inl IndexError
      | (base_x, base_y) # _ \<Rightarrow>
          (let relative_landmarks = map (\<lambda>(x, y). (x - base_x, y - base_y)) landmarks;
               flattened = flatten relative_landmarks
           in case (if flattened \<noteq> [] then py_max (map abs flattened) else Inr 1) of
                Inl e \<Rightarrow> Inl e
              | Inr max_val \<Rightarrow>
                  if max_val \<noteq> 0 then div_each flattened max_val else Inr flattened))"

text \<open>The input transformations of the invariance properties.\<close>

definition shift_landmarks :: "real \<Rightarrow> real \<Rightarrow> (real \<times> real) list \<Rightarrow> (real \<times> real) list" where
  "shift_landmarks dx dy L = map (\<lambda>(x, y). (x + dx, y + dy)) L"

definition scale_landmarks :: "real \<Rightarrow> (real \<times> real) list \<Rightarrow> (real \<times> real) list" where
  "scale_landmarks k L = map (\<lambda>(x, y). (k * x, k * y)) L"

text \<open>Names for the two quantities the normalizer computes on the way: the flattened
  offsets from point 0, and the largest absolute value among a list of components.\<close>

definition relative :: "(real \<times> real) list \<Rightarrow> real list" where
  "relative L = flatten (map (\<lambda>(x, y). (x - fst (hd L), y - snd (hd L))) L)"

definition max_abs :: "real list \<Rightarrow> real" where
  "max_abs vs = Max (set (map abs vs))"

section \<open>The label vocabulary\<close>

text \<open>
  The builtin \<^verbatim>\<open>str\<close> on a non-negative integer: its decimal digits, most significant
  first, with no leading zero.
\<close>

definition digit_char :: "nat \<Rightarrow> char" where
  "digit_char d = ''0123456789'' ! d"

fun str_nat :: "nat \<Rightarrow> string" where
  "str_nat n = (if n < 10 then [digit_char n] else str_nat (n div 10) @ [digit_char (n mod 10)])"

declare str_nat.simps [simp del]

text \<open>Reading a decimal numeral back, to say what a decimal representation is.\<close>

definition digit_value :: "char \<Rightarrow> nat" where
  "digit_value c = of_char c - of_char CHR ''0''"

definition decimal_value :: "string \<Rightarrow> nat" where
  "decimal_value s = foldl (\<lambda>acc c. 10 * acc + digit_value c) 0 s"

definition is_digit :: "char \<Rightarrow> bool" where
  "is_digit c = (c \<in> set ''0123456789'')"

text \<open>
  What \<^verbatim>\<open>json.load\<close> returns: \<^verbatim>\<open>None\<close>, a bool, an int, a float, a str, a list or a
  dict. A dict is kept as its items in insertion order; a key that the document repeats
  keeps its last value, so a lookup reads the last binding of the key.
\<close>

datatype json =
    JNull
  | JBool bool
  | JInt int
  | JFloat real
  | JStr string
  | JArr "json list"
  | JObj "(string \<times> json) list"

text \<open>\<^verbatim>\<open>data.get(key)\<close>: only a dict has the method; a missing key gives \<^verbatim>\<open>None\<close>.\<close>

fun py_get :: "json \<Rightarrow> string \<Rightarrow> error + json" where
  "py_get (JObj items) k = Inr (case map_of (rev items) k of None \<Rightarrow> JNull | Some v \<Rightarrow> v)"
| "py_get _ k = Inl AttributeError"

text \<open>
  The classifier is a function from a feature vector to the scores of the output
  channels (\<^verbatim>\<open>model.predict(df, verbose=0)[0]\<close>).

  The environment the loaders read: which paths exist (\<^verbatim>\<open>os.path.exists\<close>), what
  \<^verbatim>\<open>json.load\<close> makes of an existing file (a value, or the exception it raises), and
  what \<^verbatim>\<open>keras.models.load_model\<close> makes of one.
\<close>

type_synonym classifier = "real list \<Rightarrow> real list"

record env =
  path_exists :: "string \<Rightarrow> bool"
  json_load :: "string \<Rightarrow> error + json"
  keras_load :: "string \<Rightarrow> error + classifier"

text \<open>
  \<^verbatim>\<open>
  def load_labels(labels_path: str):
      if os.path.exists(labels_path):
          with open(labels_path, "r", encoding="utf-8") as f:
              data = json.load(f)
          classes = data.get("classes")
          if isinstance(classes, list) and classes:
              return classes
      # Fallback to 9 digits + 26 uppercase letters
      return [str(i) for i in range(1, 10)] + list(string.ascii_uppercase)
  \<close>
\<close>

definition ascii_uppercase :: string where
  "ascii_uppercase = ''ABCDEFGHIJKLMNOPQRSTUVWXYZ''"

definition fallback_labels :: "json list" where
  "fallback_labels = map (\<lambda>i. JStr (str_nat i)) [1..<10] @ map (\<lambda>c. JStr [c]) ascii_uppercase"

definition load_labels :: "env \<Rightarrow> string \<Rightarrow> error + json list" where
  "load_labels e labels_path =
     (if path_exists e labels_path then
        (case json_load e labels_path of
           Inl err \<Rightarrow> Inl err
         | Inr data \<Rightarrow>
             (case py_get data ''classes'' of
                Inl err \<Rightarrow> Inl err
              | Inr classes \<Rightarrow>
                  (case classes of
                     JArr cs \<Rightarrow> if cs \<noteq> [] then Inr cs else Inr fallback_labels
                   | _ \<Rightarrow> Inr fallback_labels)))
      else Inr fallback_labels)"

text \<open>
  The vocabulary as the specification words it: a non-empty ordered sequence of
  strings, and the default written out: the one-character strings of the nine digits and
  of the 26 capital letters.
\<close>

fun is_str :: "json \<Rightarrow> bool" where
  "is_str (JStr s) = True"
| "is_str _ = False"

fun string_sequence :: "json \<Rightarrow> bool" where
  "string_sequence (JArr cs) = (cs \<noteq> [] \<and> list_all is_str cs)"
| "string_sequence _ = False"

text \<open>The test the code makes instead, \<^verbatim>\<open>isinstance(classes, list) and classes\<close>: a list
  that is not empty, whatever its elements are.\<close>

fun nonempty_list :: "json \<Rightarrow> bool" where
  "nonempty_list (JArr cs) = (cs \<noteq> [])"
| "nonempty_list _ = False"

definition default_vocabulary :: "string list" where
  "default_vocabulary = map (\<lambda>c. [c]) ''123456789'' @ map (\<lambda>c. [c]) ''ABCDEFGHIJKLMNOPQRSTUVWXYZ''"

section \<open>The model file\<close>

text \<open>
  \<^verbatim>\<open>
  def load_model(model_path: str):
      if not os.path.exists(model_path):
          # Fallback to legacy H5 if Keras file is missing
          h5_fallback = "model_v2.h5"
          if os.path.exists(h5_fallback):
              return keras.models.load_model(h5_fallback)
          raise FileNotFoundError(
              f"Model not found: {model_path}. Train first or provide --model path."
          )
      return keras.models.load_model(model_path)
  \<close>
\<close>

definition h5_fallback :: string where
  "h5_fallback = ''model_v2.h5''"

definition not_found_message :: "string \<Rightarrow> string" where
  "not_found_message model_path =
     ''Model not found: '' @ model_path @ ''. Train first or provide --model path.''"

definition load_model :: "env \<Rightarrow> string \<Rightarrow> error + classifier" where
  "load_model e model_path =
     (if \<not> path_exists e model_path then
        (if path_exists e h5_fallback then keras_load e h5_fallback
         else Inl (FileNotFoundError (not_found_message model_path)))
      else keras_load e model_path)"

text \<open>An environment without any file, to build concrete environments from.\<close>

definition no_files :: env where
  "no_files =
     \<lparr>path_exists = (\<lambda>p. False),
      json_load = (\<lambda>p. Inl (FileNotFoundError p)),
      keras_load = (\<lambda>p. Inl (FileNotFoundError p))\<rparr>"

section \<open>Classification of one hand\<close>

text \<open>
  \<^verbatim>\<open>
  def extract_landmarks(img, hand_landmarks):
      img_width, img_height = img.shape[1], img.shape[0]
      landmarks = [
          [min(int(landmark.x * img_width), img_width - 1),
           min(int(landmark.y * img_height), img_height - 1)]
          for landmark in hand_landmarks.landmark
      ]
      return landmarks
  \<close>
  \<^verbatim>\<open>int\<close> on a float truncates towards zero.
\<close>

definition py_int :: "real \<Rightarrow> int" where
  "py_int r = (if 0 \<le> r then \<lfloor>r\<rfloor> else \<lceil>r\<rceil>)"

definition extract_landmarks :: "int \<Rightarrow> int \<Rightarrow> (real \<times> real) list \<Rightarrow> (real \<times> real) list" where
  "extract_landmarks img_width img_height hand_landmarks =
     map (\<lambda>(x, y). (real_of_int (min (py_int (x * real_of_int img_width)) (img_width - 1)),
                     real_of_int (min (py_int (y * real_of_int img_height)) (img_height - 1))))
       hand_landmarks"

text \<open>
  \<^verbatim>\<open>np.argmax\<close>: the index of the first occurrence of the largest entry;
  \<^verbatim>\<open>ValueError\<close> on an empty array. The loop carries the position, the best index and
  the best value so far.
\<close>

fun argmax_loop :: "real list \<Rightarrow> nat \<Rightarrow> nat \<Rightarrow> real \<Rightarrow> nat" where
  "argmax_loop [] i best_i best = best_i"
| "argmax_loop (v # vs) i best_i best =
     (if best < v then argmax_loop vs (Suc i) i v else argmax_loop vs (Suc i) best_i best)"

fun np_argmax :: "real list \<Rightarrow> error + nat" where
  "np_argmax [] = Inl ValueError"
| "np_argmax (p # ps) = Inr (argmax_loop ps 1 0 p)"

text \<open>
  The vocabulary of the frame loop is a list of strings, as the data model has it
  (\<open>load_labels\<close> itself does not check the entries of a list it reads). The index is
  the result of \<^verbatim>\<open>int(np.argmax(probs))\<close>, a natural number.
  \<^verbatim>\<open>
  predicted_label = labels[idx] if idx < len(labels) else str(idx)
  \<close>
\<close>

definition label_of :: "string list \<Rightarrow> nat \<Rightarrow> string" where
  "label_of labels idx = (if idx < length labels then labels ! idx else str_nat idx)"

text \<open>
  \<^verbatim>\<open>
  features = preprocess_landmarks(landmarks)
  df = pd.DataFrame([features])
  probs = model.predict(df, verbose=0)[0]
  idx = int(np.argmax(probs))
  predicted_label = labels[idx] if idx < len(labels) else str(idx)
  confidence = float(probs[idx])
  \<close>
\<close>

definition classify :: "classifier \<Rightarrow> string list \<Rightarrow> (real \<times> real) list \<Rightarrow> error + (string \<times> real)" where
  "classify model labels landmarks =
     (case preprocess_landmarks landmarks of
        Inl err \<Rightarrow> Inl err
      | Inr features \<Rightarrow>
          (let probs = model features
           in case np_argmax probs of
                Inl err \<Rightarrow> Inl err
              | Inr idx \<Rightarrow> Inr (label_of labels idx, probs ! idx)))"

section \<open>The frame loop\<close>

text \<open>
  The options the loop reads (\<^verbatim>\<open>--conf\<close>, default 0.80, and \<^verbatim>\<open>--no_audio\<close>), and the
  two variables that outlive an iteration:
  \<^verbatim>\<open>
  last_label = None
  last_change_time = 0.0
  \<close>
\<close>

record args =
  conf :: real
  no_audio :: bool

record stabilizer =
  last_label :: "string option"
  last_change_time :: real

definition initial_stabilizer :: stabilizer where
  "initial_stabilizer = \<lparr>last_label = None, last_change_time = 0\<rparr>"

definition default_args :: args where
  "default_args = \<lparr>conf = 0.80, no_audio = False\<rparr>"

text \<open>
  What one iteration reads from the outside: whether \<^verbatim>\<open>cap.read()\<close> gave a frame, the
  clock \<^verbatim>\<open>time.time()\<close>, the size of the image, the hands the detector found (each a list
  of landmarks with coordinates relative to the image; none is the empty list) and the key
  \<^verbatim>\<open>cv2.waitKey(1) & 0xFF\<close>.
\<close>

record frame =
  ok :: bool
  now :: real
  img_width :: int
  img_height :: int
  multi_hand_landmarks :: "(real \<times> real) list list"
  key :: nat

text \<open>
  \<^verbatim>\<open>
  predicted_label = ""
  confidence = 0.0
  if result.multi_hand_landmarks:
      hand_landmarks = result.multi_hand_landmarks[0]
      landmarks = extract_landmarks(annotated, hand_landmarks)
      ...
  \<close>
\<close>

definition observe :: "classifier \<Rightarrow> string list \<Rightarrow> frame \<Rightarrow> error + (string \<times> real)" where
  "observe model labels f =
     (case multi_hand_landmarks f of
        [] \<Rightarrow> Inr ([], 0)
      | hand_landmarks # _ \<Rightarrow>
          classify model labels (extract_landmarks (img_width f) (img_height f) hand_landmarks))"

text \<open>
  \<^verbatim>\<open>
  # Speak if label changed and confidence is high
  if not args.no_audio and predicted_label and confidence >= args.conf:
      if predicted_label != last_label and (now - last_change_time) > 0.75:
          speak(predicted_label)
          last_label = predicted_label
          last_change_time = now
  \<close>
  The result is the state after the statement and the text handed to \<^verbatim>\<open>speak\<close>, if any.
  \<^verbatim>\<open>speak\<close> catches every exception of its body, so it changes nothing else. A string
  is true when it is not empty.
\<close>

definition debounce :: "args \<Rightarrow> stabilizer \<Rightarrow> string \<Rightarrow> real \<Rightarrow> real \<Rightarrow> stabilizer \<times> string option" where
  "debounce a st predicted_label confidence t =
     (if \<not> no_audio a \<and> predicted_label \<noteq> [] \<and> conf a \<le> confidence then
        (if Some predicted_label \<noteq> last_label st \<and> 0.75 < t - last_change_time st then
           (\<lparr>last_label = Some predicted_label, last_change_time = t\<rparr>, Some predicted_label)
         else (st, None))
      else (st, None))"

text \<open>
  One iteration of \<^verbatim>\<open>while True\<close>: a failed capture skips the iteration, an exception
  of the classification ends the program, the key 27 leaves the loop before the speech
  block, and otherwise the speech block runs.
\<close>

datatype status = Running | Exited | Crashed error

definition frame_step ::
  "args \<Rightarrow> classifier \<Rightarrow> string list \<Rightarrow> stabilizer \<Rightarrow> frame \<Rightarrow> stabilizer \<times> string option \<times> status" where
  "frame_step a model labels st f =
     (if \<not> ok f then (st, None, Running)
      else case observe model labels f of
             Inl err \<Rightarrow> (st, None, Crashed err)
           | Inr (predicted_label, confidence) \<Rightarrow>
               if key f = 27 then (st, None, Exited)
               else (case debounce a st predicted_label confidence (now f) of
                       (st', spoken) \<Rightarrow> (st', spoken, Running)))"

text \<open>
  The loop over the frames the camera delivers. The result is the state the run is in
  after these frames, the texts spoken so far in order, and whether the loop is still
  running.
\<close>

fun run_frames ::
  "args \<Rightarrow> classifier \<Rightarrow> string list \<Rightarrow> stabilizer \<Rightarrow> frame list \<Rightarrow> stabilizer \<times> string list \<times> status" where
  "run_frames a model labels st [] = (st, [], Running)"
| "run_frames a model labels st (f # fs) =
     (case frame_step a model labels st f of
        (st', spoken, Running) \<Rightarrow>
          (case run_frames a model labels st' fs of
             (st'', rest, s) \<Rightarrow> (st'', (case spoken of None \<Rightarrow> [] | Some text \<Rightarrow> [text]) @ rest, s))
      | (st', spoken, s) \<Rightarrow> (st', [], s))"

text \<open>
  The speech block alone, over a sequence of observations (label, confidence,
  timestamp): for each observation the commit it made, if any, as the label and the
  timestamp written to the state, and at the end the state reached.
\<close>

fun debounce_all ::
  "args \<Rightarrow> stabilizer \<Rightarrow> (string \<times> real \<times> real) list \<Rightarrow> (string \<times> real) option list \<times> stabilizer" where
  "debounce_all a st [] = ([], st)"
| "debounce_all a st ((label, confidence, t) # obs) =
     (case debounce a st label confidence t of
        (st', spoken) \<Rightarrow>
          (case debounce_all a st' obs of
             (commits, st'') \<Rightarrow>
               ((case spoken of None \<Rightarrow> None | Some text \<Rightarrow> Some (text, last_change_time st')) # commits,
                st'')))"

text \<open>The observations of the debounce scenario of the specification, as (label,
  confidence, timestamp).\<close>

definition gating_scenario :: "(string \<times> real \<times> real) list" where
  "gating_scenario =
     [(''A'', 0.95, 0.0), (''A'', 0.95, 0.1), (''B'', 0.95, 0.2), (''B'', 0.95, 0.9), (''B'', 0.60, 1.5)]"

section \<open>Properties of the normalizer\<close>

lemma flatten_Nil_iff: "flatten ps = [] \<longleftrightarrow> ps = []"
  by (cases ps) (auto simp: flatten_def split: prod.splits)

lemma length_flatten: "length (flatten ps) = 2 * length ps"
  by (induction ps) (auto simp: flatten_def)

lemma flatten_Cons: "flatten ((x, y) # ps) = x # y # flatten ps"
  by (simp add: flatten_def)

lemma py_max_Max: "vs \<noteq> [] \<Longrightarrow> py_max vs = Inr (Max (set vs))"
proof (cases vs)
  case (Cons a list)
  then show ?thesis using Max.set_eq_fold [of a list] by simp
qed simp

lemma div_each_map: "m \<noteq> 0 \<Longrightarrow> div_each vs m = Inr (map (\<lambda>v. v / m) vs)"
  by (induction vs) (simp_all add: true_div_def)

lemma div_each_zero: "vs \<noteq> [] \<Longrightarrow> div_each vs 0 = Inl ZeroDivisionError"
  by (cases vs) (simp_all add: true_div_def)

lemma relative_Nil_iff: "relative L = [] \<longleftrightarrow> L = []"
  by (simp add: relative_def flatten_Nil_iff)

lemma length_relative: "length (relative L) = 2 * length L"
  by (simp add: relative_def length_flatten)

text \<open>The normalizer in closed form: on a non-empty list it never raises, and it divides
  the offsets from point 0 by their largest absolute value unless that value is zero.\<close>

lemma preprocess_landmarks_eq:
  assumes "L \<noteq> []"
  shows "preprocess_landmarks L =
     Inr (if max_abs (relative L) \<noteq> 0
          then map (\<lambda>v. v / max_abs (relative L)) (relative L) else relative L)"
proof -
  obtain bx b_y ps where L: "L = (bx, b_y) # ps"
    using assms by (cases L) auto
  have ne: "relative L \<noteq> []"
    using assms by (simp add: relative_Nil_iff)
  have rel: "flatten (map (\<lambda>(x, y). (x - bx, y - b_y)) L) = relative L"
    by (simp add: relative_def L)
  have "preprocess_landmarks L =
      (case py_max (map abs (relative L)) of Inl e \<Rightarrow> Inl e
       | Inr max_val \<Rightarrow> if max_val \<noteq> 0 then div_each (relative L) max_val else Inr (relative L))"
    using ne unfolding preprocess_landmarks_def Let_def rel [symmetric]
    by (simp add: L)
  also have "py_max (map abs (relative L)) = Inr (max_abs (relative L))"
    using ne by (simp add: py_max_Max max_abs_def)
  finally show ?thesis
    by (simp add: div_each_map)
qed

lemma relative_shift: "relative (shift_landmarks dx dy L) = relative L"
proof (cases L)
  case Nil
  then show ?thesis by (simp add: relative_def shift_landmarks_def)
next
  case (Cons p ps)
  have "map (\<lambda>(x, y). (x - (a + dx), y - (b + dy))) (map (\<lambda>(x, y). (x + dx, y + dy)) qs)
      = map (\<lambda>(x, y). (x - a, y - b)) qs" for a b qs
    by (simp add: case_prod_unfold)
  from this [of "fst p" "snd p" L] show ?thesis
    using Cons by (simp add: relative_def shift_landmarks_def case_prod_unfold comp_def)
qed

lemma flatten_scale:
  "flatten (map (\<lambda>(x, y). (k * x - k * a, k * y - k * b)) qs)
      = map ((*) k) (flatten (map (\<lambda>(x, y). (x - a, y - b)) qs))"
  by (induction qs) (auto simp: flatten_def right_diff_distrib)

lemma relative_scale: "relative (scale_landmarks k L) = map ((*) k) (relative L)"
proof (cases L)
  case Nil
  then show ?thesis by (simp add: relative_def scale_landmarks_def flatten_def)
next
  case (Cons p ps)
  have "relative (scale_landmarks k L)
      = flatten (map (\<lambda>(x, y). (k * x - k * fst p, k * y - k * snd p)) L)"
    unfolding relative_def scale_landmarks_def Cons
    by (simp add: case_prod_unfold comp_def)
  also have "\<dots> = map ((*) k) (flatten (map (\<lambda>(x, y). (x - fst p, y - snd p)) L))"
    by (rule flatten_scale)
  also have "flatten (map (\<lambda>(x, y). (x - fst p, y - snd p)) L) = relative L"
    by (simp add: relative_def Cons)
  finally show ?thesis .
qed

lemma max_abs_scale:
  assumes "0 < k" "vs \<noteq> []"
  shows "max_abs (map ((*) k) vs) = k * max_abs vs"
proof -
  have "mono ((*) k)" using assms by (auto simp: mono_def)
  then have "k * Max (abs ` set vs) = Max ((*) k ` abs ` set vs)"
    using assms by (intro mono_Max_commute) auto
  moreover have "(*) k ` abs ` set vs = abs ` (*) k ` set vs"
    using assms by (auto simp: image_iff abs_mult)
  ultimately show ?thesis
    unfolding max_abs_def set_map by simp
qed

lemma max_abs_nonneg: "vs \<noteq> [] \<Longrightarrow> 0 \<le> max_abs vs"
proof -
  assume "vs \<noteq> []"
  then have "\<bar>hd vs\<bar> \<in> set (map abs vs)" by (cases vs) auto
  then have "\<bar>hd vs\<bar> \<le> max_abs vs"
    unfolding max_abs_def by (intro Max_ge) auto
  then show ?thesis by linarith
qed

lemma max_abs_zero_iff: "vs \<noteq> [] \<Longrightarrow> max_abs vs = 0 \<longleftrightarrow> (\<forall>v \<in> set vs. v = 0)"
proof
  assume ne: "vs \<noteq> []" and z: "max_abs vs = 0"
  show "\<forall>v \<in> set vs. v = 0"
  proof
    fix v assume "v \<in> set vs"
    then have "\<bar>v\<bar> \<le> max_abs vs"
      unfolding max_abs_def by (intro Max_ge) auto
    with z show "v = 0" by simp
  qed
next
  assume ne: "vs \<noteq> []" and all: "\<forall>v \<in> set vs. v = 0"
  then have "set (map abs vs) = {0}" by (cases vs) auto
  then show "max_abs vs = 0" by (simp add: max_abs_def)
qed

lemma max_abs_divide:
  assumes "vs \<noteq> []" "max_abs vs \<noteq> 0"
  shows "max_abs (map (\<lambda>v. v / max_abs vs) vs) = 1"
proof -
  have pos: "0 < max_abs vs"
    using assms max_abs_nonneg [of vs] by linarith
  have eq: "map (\<lambda>v. v / max_abs vs) vs = map ((*) (1 / max_abs vs)) vs"
    by simp
  have "max_abs (map ((*) (1 / max_abs vs)) vs) = (1 / max_abs vs) * max_abs vs"
    by (rule max_abs_scale) (use pos assms(1) in simp_all)
  also have "\<dots> = 1" using pos by simp
  finally show ?thesis unfolding eq .
qed

lemma relative_all_zero_iff:
  "(\<forall>v \<in> set (relative L). v = 0) \<longleftrightarrow> (\<forall>p \<in> set L. p = hd L)"
proof -
  have "set (flatten (map (\<lambda>(x, y). (x - a, y - b)) qs)) = (\<Union>(x, y) \<in> set qs. {x - a, y - b})" for a b qs
    by (induction qs) (auto simp: flatten_def)
  then show ?thesis
    unfolding relative_def by (auto simp: prod_eq_iff)
qed

lemma flatten_scaled_offsets:
  "flatten (map (\<lambda>(x, y). (c * (x - a), c * (y - b))) qs)
      = map ((*) c) (flatten (map (\<lambda>(x, y). (x - a, y - b)) qs))"
  by (induction qs) (auto simp: flatten_def)

lemma relative_starts_zero: "L \<noteq> [] \<Longrightarrow> \<exists>vs. relative L = 0 # 0 # vs"
  by (cases L) (auto simp: relative_def flatten_def split: prod.splits)

text \<open>
  C3. The normalizer is translation invariant: for every non-empty landmark list and
  every shift \<open>(dx, dy)\<close>, normalizing the shifted list returns what normalizing the list
  returns, and that is a feature vector, not an exception.
\<close>

theorem preprocess_translation_invariant:
  assumes "L \<noteq> []"
  shows "preprocess_landmarks (shift_landmarks dx dy L) = preprocess_landmarks L
       \<and> (\<exists>ys. preprocess_landmarks L = Inr ys)"
proof -
  have "shift_landmarks dx dy L \<noteq> []"
    using assms by (simp add: shift_landmarks_def)
  then have "preprocess_landmarks (shift_landmarks dx dy L) = preprocess_landmarks L"
    using assms by (simp add: preprocess_landmarks_eq relative_shift)
  moreover have "\<exists>ys. preprocess_landmarks L = Inr ys"
    using assms by (simp add: preprocess_landmarks_eq)
  ultimately show ?thesis by simp
qed

theorem preprocess_translation_invariant_witness:
  "preprocess_landmarks (shift_landmarks 10 (- 2) [(3, 4), (6, 8), (1, 4)]) = Inr [0, 0, 3 / 4, 1, - 1 / 2, 0]
   \<and> preprocess_landmarks [(3, 4), (6, 8), (1, 4)] = Inr [0, 0, 3 / 4, 1, - 1 / 2, 0]"
proof -
  have e: "preprocess_landmarks [(3, 4), (6, 8), (1, 4)] = Inr [0, 0, 3 / 4, 1, - 1 / 2, 0]"
    by code_simp
  have "[(3, 4), (6, 8), (1, 4)] \<noteq> ([] :: (real \<times> real) list)" by simp
  from preprocess_translation_invariant [OF this, of 10 "- 2"] e show ?thesis by simp
qed

text \<open>
  C4. The normalizer is invariant under uniform positive scaling: for every non-empty
  landmark list and every \<open>k > 0\<close>, normalizing the list with every coordinate multiplied
  by \<open>k\<close> returns exactly what normalizing the list returns (in exact arithmetic), and
  that is a feature vector, not an exception.
\<close>

theorem preprocess_scale_invariant:
  assumes "L \<noteq> []" and "0 < k"
  shows "preprocess_landmarks (scale_landmarks k L) = preprocess_landmarks L
       \<and> (\<exists>ys. preprocess_landmarks L = Inr ys)"
proof -
  let ?r = "relative L" and ?m = "max_abs (relative L)"
  have ne: "?r \<noteq> []" using assms(1) by (simp add: relative_Nil_iff)
  have sne: "scale_landmarks k L \<noteq> []"
    using assms(1) by (simp add: scale_landmarks_def)
  have m: "max_abs (map ((*) k) ?r) = k * ?m"
    using assms(2) ne by (rule max_abs_scale)
  have "preprocess_landmarks (scale_landmarks k L) =
      Inr (if k * ?m \<noteq> 0 then map (\<lambda>v. v / (k * ?m)) (map ((*) k) ?r) else map ((*) k) ?r)"
    by (simp add: preprocess_landmarks_eq [OF sne] relative_scale m)
  also have "\<dots> = Inr (if ?m \<noteq> 0 then map (\<lambda>v. v / ?m) ?r else ?r)"
  proof (cases "?m = 0")
    case True
    then have "\<forall>v \<in> set ?r. v = 0" using ne by (simp add: max_abs_zero_iff)
    then have "map ((*) k) ?r = ?r" by (simp add: map_idI)
    with True show ?thesis by simp
  next
    case False
    then show ?thesis using assms(2) by simp
  qed
  also have "\<dots> = preprocess_landmarks L"
    by (simp add: preprocess_landmarks_eq [OF assms(1)])
  finally show ?thesis
    using assms(1) by (simp add: preprocess_landmarks_eq)
qed

theorem preprocess_scale_invariant_witness:
  "preprocess_landmarks (scale_landmarks 5 [(3, 4), (6, 8), (1, 4)]) = Inr [0, 0, 3 / 4, 1, - 1 / 2, 0]
   \<and> preprocess_landmarks [(3, 4), (6, 8), (1, 4)] = Inr [0, 0, 3 / 4, 1, - 1 / 2, 0]"
proof -
  have e: "preprocess_landmarks [(3, 4), (6, 8), (1, 4)] = Inr [0, 0, 3 / 4, 1, - 1 / 2, 0]"
    by code_simp
  have "[(3, 4), (6, 8), (1, 4)] \<noteq> ([] :: (real \<times> real) list)" and "(0::real) < 5" by simp_all
  from preprocess_scale_invariant [OF this] e show ?thesis by simp
qed

text \<open>
  C5. For every non-empty landmark list whose points are all equal (every single-point
  list is one), the normalizer returns the all-zero vector of length \<open>2N\<close>. No division
  by zero happens: the largest absolute component is zero, the division is skipped, and
  the division that the guard skips is one that would have raised.
\<close>

theorem preprocess_degenerate_all_zero:
  assumes "L \<noteq> []" and "\<forall>p \<in> set L. p = hd L"
  shows "preprocess_landmarks L = Inr (replicate (2 * length L) 0)
       \<and> max_abs (relative L) = 0
       \<and> div_each (relative L) (max_abs (relative L)) = Inl ZeroDivisionError"
proof -
  have ne: "relative L \<noteq> []" using assms(1) by (simp add: relative_Nil_iff)
  have zeros: "\<forall>v \<in> set (relative L). v = 0"
    using assms(2) by (simp add: relative_all_zero_iff)
  then have m: "max_abs (relative L) = 0"
    using ne by (simp add: max_abs_zero_iff)
  have "relative L = replicate (length (relative L)) 0"
    using zeros by (simp add: replicate_length_same)
  then have "relative L = replicate (2 * length L) 0"
    by (simp add: length_relative)
  then have "preprocess_landmarks L = Inr (replicate (2 * length L) 0)"
    using m by (simp add: preprocess_landmarks_eq [OF assms(1)])
  moreover have "div_each (relative L) (max_abs (relative L)) = Inl ZeroDivisionError"
    using ne by (simp add: m div_each_zero)
  ultimately show ?thesis using m by simp
qed

theorem preprocess_degenerate_all_zero_witness:
  "preprocess_landmarks [(5, 7), (5, 7), (5, 7)] = Inr [0, 0, 0, 0, 0, 0]
   \<and> preprocess_landmarks [(2, 3)] = Inr [0, 0]"
proof -
  have a: "[(5, 7), (5, 7), (5, 7)] \<noteq> ([] :: (real \<times> real) list)"
    and b: "\<forall>p \<in> set [(5, 7), (5, 7), (5::real, 7::real)]. p = hd [(5, 7), (5, 7), (5, 7)]"
    and c: "[(2, 3)] \<noteq> ([] :: (real \<times> real) list)"
    and d: "\<forall>p \<in> set [(2::real, 3::real)]. p = hd [(2, 3)]"
    by simp_all
  from preprocess_degenerate_all_zero [OF a b] preprocess_degenerate_all_zero [OF c d]
  show ?thesis by (simp add: numeral_eq_Suc)
qed

text \<open>
  C6. For every non-empty list of \<open>N\<close> points the normalizer returns a list of exactly
  \<open>2N\<close> numbers: the offsets of the points from point 0, in point order and \<open>x\<close> before
  \<open>y\<close>, all multiplied by one positive factor. Its first two components are 0, and when
  some point differs from point 0 the largest absolute value among its components is 1.
\<close>

theorem preprocess_shape:
  assumes "L \<noteq> []"
  shows "\<exists>ys. preprocess_landmarks L = Inr ys
      \<and> length ys = 2 * length L
      \<and> ys ! 0 = 0 \<and> ys ! 1 = 0
      \<and> (\<exists>c>0. ys = flatten (map (\<lambda>(x, y). (c * (x - fst (hd L)), c * (y - snd (hd L)))) L))
      \<and> ((\<exists>p \<in> set L. p \<noteq> hd L) \<longrightarrow> max_abs ys = 1)"
proof -
  let ?r = "relative L" and ?m = "max_abs (relative L)"
  define c where "c = (if ?m \<noteq> 0 then 1 / ?m else 1)"
  define ys where "ys = map ((*) c) ?r"
  have ne: "?r \<noteq> []" using assms by (simp add: relative_Nil_iff)
  have cpos: "0 < c"
    using max_abs_nonneg [OF ne] by (auto simp: c_def)
  have "map ((*) (1::real)) ?r = ?r"
    by (simp add: map_idI)
  then have res: "preprocess_landmarks L = Inr ys"
    by (simp add: preprocess_landmarks_eq [OF assms] ys_def c_def)
  have len: "length ys = 2 * length L"
    by (simp add: ys_def length_relative)
  obtain vs where "?r = 0 # 0 # vs"
    using relative_starts_zero [OF assms] by blast
  then have first: "ys ! 0 = 0 \<and> ys ! 1 = 0"
    by (simp add: ys_def)
  have order: "ys = flatten (map (\<lambda>(x, y). (c * (x - fst (hd L)), c * (y - snd (hd L)))) L)"
    by (simp add: ys_def relative_def flatten_scaled_offsets)
  have top: "max_abs ys = 1" if "\<exists>p \<in> set L. p \<noteq> hd L"
  proof -
    have "\<not> (\<forall>v \<in> set ?r. v = 0)"
      using that by (simp add: relative_all_zero_iff)
    then have nz: "?m \<noteq> 0" using ne by (simp add: max_abs_zero_iff)
    then have "ys = map (\<lambda>v. v / ?m) ?r" by (simp add: ys_def c_def)
    then show ?thesis using max_abs_divide [OF ne nz] by simp
  qed
  from res len first order cpos top show ?thesis by blast
qed

theorem preprocess_shape_witness:
  "preprocess_landmarks [(3, 4), (6, 8), (1, 4)] = Inr [0, 0, 3 / 4, 1, - 1 / 2, 0]
   \<and> max_abs [0, 0, 3 / 4, 1, - 1 / 2, 0] = 1"
proof -
  have e: "preprocess_landmarks [(3, 4), (6, 8), (1, 4)] = Inr [0, 0, 3 / 4, 1, - 1 / 2, 0]"
    by code_simp
  have "[(3, 4), (6, 8), (1, 4)] \<noteq> ([] :: (real \<times> real) list)" by simp
  from preprocess_shape [OF this] e show ?thesis by auto
qed

section \<open>Properties of the vocabulary and of the classification\<close>

lemma digit_value_digit_char: "d < 10 \<Longrightarrow> digit_value (digit_char d) = d"
proof -
  assume "d < 10"
  then have "d \<in> {0, 1, 2, 3, 4, 5, 6, 7, 8, 9}" by auto
  then show ?thesis
    by (auto simp: digit_value_def digit_char_def)
qed

lemma is_digit_digit_char: "d < 10 \<Longrightarrow> is_digit (digit_char d)"
proof -
  assume "d < 10"
  then have "d \<in> {0, 1, 2, 3, 4, 5, 6, 7, 8, 9}" by auto
  then show ?thesis
    by (auto simp: is_digit_def digit_char_def)
qed

lemma digit_char_zero_iff: "d < 10 \<Longrightarrow> digit_char d = CHR ''0'' \<longleftrightarrow> d = 0"
proof -
  assume "d < 10"
  then have "d \<in> {0, 1, 2, 3, 4, 5, 6, 7, 8, 9}" by auto
  then show ?thesis
    by (auto simp: digit_char_def)
qed

lemma decimal_value_snoc: "decimal_value (s @ [c]) = 10 * decimal_value s + digit_value c"
  by (simp add: decimal_value_def)

text \<open>\<open>str_nat\<close> is the decimal representation: reading it back gives the number, every
  character is a digit, and only the numeral of zero starts with the digit zero.\<close>

lemma decimal_value_str_nat: "decimal_value (str_nat n) = n"
proof (induction n rule: str_nat.induct)
  case (1 n)
  show ?case
  proof (cases "n < 10")
    case True
    then show ?thesis
      by (simp add: str_nat.simps [of n] decimal_value_def digit_value_digit_char)
  next
    case False
    then have "decimal_value (str_nat n) = 10 * (n div 10) + n mod 10"
      using "1.IH" by (simp add: str_nat.simps [of n] decimal_value_snoc digit_value_digit_char)
    then show ?thesis by simp
  qed
qed

lemma digits_str_nat: "list_all is_digit (str_nat n)"
proof (induction n rule: str_nat.induct)
  case (1 n)
  then show ?case
    by (cases "n < 10") (simp_all add: str_nat.simps [of n] is_digit_digit_char)
qed

lemma str_nat_not_Nil: "str_nat n \<noteq> []"
  by (simp add: str_nat.simps [of n])

lemma hd_str_nat: "hd (str_nat n) = CHR ''0'' \<longleftrightarrow> n = 0"
proof (induction n rule: str_nat.induct)
  case (1 n)
  show ?case
  proof (cases "n < 10")
    case True
    then show ?thesis
      by (simp add: str_nat.simps [of n] digit_char_zero_iff)
  next
    case False
    then have "hd (str_nat n) = hd (str_nat (n div 10))"
      by (simp add: str_nat.simps [of n] str_nat_not_Nil)
    with False "1.IH" show ?thesis by auto
  qed
qed

text \<open>The loop of \<open>np_argmax\<close>: \<open>pre\<close> is the part of the array already seen.\<close>

lemma argmax_loop_first_max:
  assumes "bi < length pre" and "b = pre ! bi"
    and "\<forall>v \<in> set pre. v \<le> b" and "\<forall>j<bi. pre ! j < b"
  shows "argmax_loop vs (length pre) bi b < length (pre @ vs)
       \<and> (\<forall>v \<in> set (pre @ vs). v \<le> (pre @ vs) ! argmax_loop vs (length pre) bi b)
       \<and> (\<forall>j < argmax_loop vs (length pre) bi b.
            (pre @ vs) ! j < (pre @ vs) ! argmax_loop vs (length pre) bi b)"
  using assms
proof (induction vs arbitrary: pre bi b)
  case Nil
  then show ?case by simp
next
  case (Cons v vs)
  show ?case
  proof (cases "b < v")
    case True
    have "length (pre @ [v]) = Suc (length pre)" by simp
    moreover have "length pre < length (pre @ [v])" by simp
    moreover have "v = (pre @ [v]) ! length pre" by simp
    moreover have "\<forall>u \<in> set (pre @ [v]). u \<le> v"
      using Cons.prems(3) True by auto
    moreover have "\<forall>j<length pre. (pre @ [v]) ! j < v"
      using Cons.prems(3) True by (auto simp: nth_append intro: le_less_trans)
    ultimately show ?thesis
      using Cons.IH [of "length pre" "pre @ [v]" v] True by simp
  next
    case False
    have "bi < length (pre @ [v])" using Cons.prems(1) by simp
    moreover have "b = (pre @ [v]) ! bi"
      using Cons.prems(1,2) by (simp add: nth_append)
    moreover have "\<forall>u \<in> set (pre @ [v]). u \<le> b"
      using Cons.prems(3) False by auto
    moreover have "\<forall>j<bi. (pre @ [v]) ! j < b"
      using Cons.prems(1,4) by (simp add: nth_append)
    ultimately show ?thesis
      using Cons.IH [of bi "pre @ [v]" b] False by simp
  qed
qed

lemma np_argmax_first_max:
  assumes "probs \<noteq> []"
  shows "\<exists>idx. np_argmax probs = Inr idx \<and> idx < length probs
       \<and> (\<forall>v \<in> set probs. v \<le> probs ! idx) \<and> (\<forall>j<idx. probs ! j < probs ! idx)"
proof -
  obtain p ps where probs: "probs = p # ps"
    using assms by (cases probs) auto
  have "0 < length [p]" "p = [p] ! 0" "\<forall>v \<in> set [p]. v \<le> p" "\<forall>j<0. [p] ! j < p"
    by simp_all
  from argmax_loop_first_max [OF this, of ps] show ?thesis
    by (simp add: probs)
qed

lemma fallback_labels_eq: "fallback_labels = map JStr default_vocabulary"
  unfolding fallback_labels_def default_vocabulary_def ascii_uppercase_def
  by code_simp

lemma length_default_vocabulary: "length default_vocabulary = 35"
  by (simp add: default_vocabulary_def)

text \<open>What the code does on a file that is not a JSON document, or whose document is
  not an object: the exception leaves \<open>load_labels\<close>.\<close>

lemma load_labels_raises:
  "path_exists e p \<Longrightarrow> json_load e p = Inl err \<Longrightarrow> load_labels e p = Inl err"
  "path_exists e p \<Longrightarrow> json_load e p = Inr (JArr cs) \<Longrightarrow> load_labels e p = Inl AttributeError"
  by (simp_all add: load_labels_def)

lemma load_labels_fallback:
  assumes "\<not> path_exists e p
         \<or> (\<exists>items classes. json_load e p = Inr (JObj items)
               \<and> py_get (JObj items) ''classes'' = Inr classes \<and> \<not> nonempty_list classes)"
  shows "load_labels e p = Inr (map JStr default_vocabulary)"
proof -
  have "load_labels e p = Inr fallback_labels"
    using assms
  proof
    assume "\<not> path_exists e p"
    then show ?thesis by (simp add: load_labels_def)
  next
    assume "\<exists>items classes. json_load e p = Inr (JObj items)
               \<and> py_get (JObj items) ''classes'' = Inr classes \<and> \<not> nonempty_list classes"
    then obtain items classes where j: "json_load e p = Inr (JObj items)"
      and g: "py_get (JObj items) ''classes'' = Inr classes" and n: "\<not> nonempty_list classes"
      by blast
    from n have "(case classes of JArr cs \<Rightarrow> if cs \<noteq> [] then Inr cs else Inr fallback_labels
          | _ \<Rightarrow> Inr fallback_labels) = (Inr fallback_labels :: error + json list)"
      by (cases classes) simp_all
    then show ?thesis
      unfolding load_labels_def j using g by (simp del: py_get.simps)
  qed
  then show ?thesis
    by (simp add: fallback_labels_eq)
qed

lemma load_labels_nonempty_list:
  assumes "path_exists e p" and "json_load e p = Inr (JObj items)"
    and "py_get (JObj items) ''classes'' = Inr (JArr cs)" and "cs \<noteq> []"
  shows "load_labels e p = Inr cs"
  unfolding load_labels_def using assms by (simp del: py_get.simps)

text \<open>
  C7, as the code has it. For every labels file that is missing, and for every labels
  file holding a JSON object whose \<open>classes\<close> entry is absent or is anything but a
  non-empty list, \<open>load_labels\<close> returns the default vocabulary: the 35 strings
  \<open>1\<close> to \<open>9\<close> and \<open>A\<close> to \<open>Z\<close>, in that order. For every labels file holding a JSON
  object whose \<open>classes\<close> entry is a non-empty list, \<open>load_labels\<close> returns exactly that
  list, whatever its elements are.
\<close>

theorem load_labels_default:
  "(\<not> path_exists e p
      \<or> (\<exists>items classes. json_load e p = Inr (JObj items)
            \<and> py_get (JObj items) ''classes'' = Inr classes \<and> \<not> nonempty_list classes)
     \<longrightarrow> load_labels e p = Inr (map JStr default_vocabulary))
   \<and> length default_vocabulary = 35
   \<and> (path_exists e p \<and> json_load e p = Inr (JObj items')
        \<and> py_get (JObj items') ''classes'' = Inr (JArr cs) \<and> cs \<noteq> []
     \<longrightarrow> load_labels e p = Inr cs)"
  using load_labels_fallback [of e p] load_labels_nonempty_list [of e p items' cs]
  by (simp add: length_default_vocabulary)

theorem load_labels_default_witness:
  "load_labels no_files ''labels.json'' = Inr (map JStr default_vocabulary)
   \<and> load_labels (no_files\<lparr>path_exists := (\<lambda>p. True),
        json_load := (\<lambda>p. Inr (JObj [(''classes'', JArr [])]))\<rparr>) ''labels.json''
     = Inr (map JStr default_vocabulary)
   \<and> load_labels (no_files\<lparr>path_exists := (\<lambda>p. True),
        json_load := (\<lambda>p. Inr (JObj [(''labels'', JArr [JStr ''A''])]))\<rparr>) ''labels.json''
     = Inr (map JStr default_vocabulary)
   \<and> load_labels (no_files\<lparr>path_exists := (\<lambda>p. True),
        json_load := (\<lambda>p. Inr (JObj [(''classes'', JArr [JStr ''X'', JStr ''Y'', JStr ''Z''])]))\<rparr>)
        ''labels.json''
     = Inr [JStr ''X'', JStr ''Y'', JStr ''Z'']"
proof -
  have a: "\<not> path_exists no_files ''labels.json''
      \<or> (\<exists>items classes. json_load no_files ''labels.json'' = Inr (JObj items)
               \<and> py_get (JObj items) ''classes'' = Inr classes \<and> \<not> nonempty_list classes)"
    by (simp add: no_files_def)
  let ?e = "no_files\<lparr>path_exists := (\<lambda>p. True),
        json_load := (\<lambda>p. Inr (JObj [(''classes'', JArr [])]))\<rparr>"
  have "json_load ?e ''labels.json'' = Inr (JObj [(''classes'', JArr [])])
      \<and> py_get (JObj [(''classes'', JArr [])]) ''classes'' = Inr (JArr []) \<and> \<not> nonempty_list (JArr [])"
    by simp
  then have b: "\<not> path_exists ?e ''labels.json''
      \<or> (\<exists>items classes. json_load ?e ''labels.json'' = Inr (JObj items)
               \<and> py_get (JObj items) ''classes'' = Inr classes \<and> \<not> nonempty_list classes)"
    by blast
  let ?f = "no_files\<lparr>path_exists := (\<lambda>p. True),
        json_load := (\<lambda>p. Inr (JObj [(''labels'', JArr [JStr ''A''])]))\<rparr>"
  have "json_load ?f ''labels.json'' = Inr (JObj [(''labels'', JArr [JStr ''A''])])
      \<and> py_get (JObj [(''labels'', JArr [JStr ''A''])]) ''classes'' = Inr JNull \<and> \<not> nonempty_list JNull"
    by simp
  then have c: "\<not> path_exists ?f ''labels.json''
      \<or> (\<exists>items classes. json_load ?f ''labels.json'' = Inr (JObj items)
               \<and> py_get (JObj items) ''classes'' = Inr classes \<and> \<not> nonempty_list classes)"
    by blast
  let ?g = "no_files\<lparr>path_exists := (\<lambda>p. True),
        json_load := (\<lambda>p. Inr (JObj [(''classes'', JArr [JStr ''X'', JStr ''Y'', JStr ''Z''])]))\<rparr>"
  have d: "path_exists ?g ''labels.json''
      \<and> json_load ?g ''labels.json'' = Inr (JObj [(''classes'', JArr [JStr ''X'', JStr ''Y'', JStr ''Z''])])
      \<and> py_get (JObj [(''classes'', JArr [JStr ''X'', JStr ''Y'', JStr ''Z''])]) ''classes''
          = Inr (JArr [JStr ''X'', JStr ''Y'', JStr ''Z''])
      \<and> [JStr ''X'', JStr ''Y'', JStr ''Z''] \<noteq> []"
    by simp
  have w1: "load_labels no_files ''labels.json'' = Inr (map JStr default_vocabulary)"
    using load_labels_default [of no_files "''labels.json''"] a by blast
  have w2: "load_labels ?e ''labels.json'' = Inr (map JStr default_vocabulary)"
    using load_labels_default [of ?e "''labels.json''"] b by blast
  have w3: "load_labels ?f ''labels.json'' = Inr (map JStr default_vocabulary)"
    using load_labels_default [of ?f "''labels.json''"] c by blast
  have w4: "load_labels ?g ''labels.json'' = Inr [JStr ''X'', JStr ''Y'', JStr ''Z'']"
    using load_labels_default [where e = ?g and p = "''labels.json''"
        and items' = "[(''classes'', JArr [JStr ''X'', JStr ''Y'', JStr ''Z''])]"
        and cs = "[JStr ''X'', JStr ''Y'', JStr ''Z'']"] d
    by blast
  from w1 w2 w3 w4 show ?thesis by blast
qed

text \<open>
  C7 as the specification states it fails: a \<open>classes\<close> entry that is a non-empty list of
  numbers is not a non-empty sequence of strings, and \<open>load_labels\<close> returns that list,
  not the default vocabulary.
\<close>

theorem load_labels_default_counterexample:
  "\<not> string_sequence (JArr [JInt 1, JInt 2])
   \<and> load_labels (no_files\<lparr>path_exists := (\<lambda>p. True),
        json_load := (\<lambda>p. Inr (JObj [(''classes'', JArr [JInt 1, JInt 2])]))\<rparr>) ''labels.json''
     = Inr [JInt 1, JInt 2]
   \<and> [JInt 1, JInt 2] \<noteq> map JStr default_vocabulary"
  by (simp add: load_labels_def default_vocabulary_def)

text \<open>
  C9, as the code has it. \<open>load_model\<close> loads the primary path when it exists; otherwise
  it loads the legacy path \<open>model_v2.h5\<close> when that exists; otherwise it raises
  \<open>FileNotFoundError\<close> with the message
  \<open>Model not found: <primary path>. Train first or provide --model path.\<close>, which
  names the primary path only.
\<close>

theorem load_model_resolution:
  "(path_exists e p \<longrightarrow> load_model e p = keras_load e p)
   \<and> (\<not> path_exists e p \<and> path_exists e h5_fallback \<longrightarrow> load_model e p = keras_load e h5_fallback)
   \<and> (\<not> path_exists e p \<and> \<not> path_exists e h5_fallback \<longrightarrow>
        load_model e p = Inl (FileNotFoundError (not_found_message p))
        \<and> not_found_message p = ''Model not found: '' @ p @ ''. Train first or provide --model path.''
        \<and> sublist p (not_found_message p))"
proof -
  have "sublist p (''Model not found: '' @ p @ ''. Train first or provide --model path.'')"
    by (rule sublist_appendI)
  then show ?thesis
    by (simp add: load_model_def not_found_message_def)
qed

theorem load_model_resolution_witness:
  "load_model (no_files\<lparr>path_exists := (\<lambda>p. True), keras_load := (\<lambda>p. Inr (\<lambda>fs. [1]))\<rparr>) ''model.keras''
     = keras_load (no_files\<lparr>path_exists := (\<lambda>p. True), keras_load := (\<lambda>p. Inr (\<lambda>fs. [1]))\<rparr>) ''model.keras''
   \<and> load_model (no_files\<lparr>path_exists := (\<lambda>p. p = ''model_v2.h5''), keras_load := (\<lambda>p. Inr (\<lambda>fs. [1]))\<rparr>) ''model.keras''
     = keras_load (no_files\<lparr>path_exists := (\<lambda>p. p = ''model_v2.h5''), keras_load := (\<lambda>p. Inr (\<lambda>fs. [1]))\<rparr>) ''model_v2.h5''
   \<and> load_model no_files ''model.keras''
     = Inl (FileNotFoundError ''Model not found: model.keras. Train first or provide --model path.'')"
  using load_model_resolution [of "no_files\<lparr>path_exists := (\<lambda>p. True), keras_load := (\<lambda>p. Inr (\<lambda>fs. [1]))\<rparr>" "''model.keras''"]
    load_model_resolution [of "no_files\<lparr>path_exists := (\<lambda>p. p = ''model_v2.h5''), keras_load := (\<lambda>p. Inr (\<lambda>fs. [1]))\<rparr>" "''model.keras''"]
    load_model_resolution [of no_files "''model.keras''"]
  by (simp add: no_files_def h5_fallback_def)

text \<open>
  C9 as the specification states it fails: with neither file present and the default
  primary path, the message of the error does not name the legacy path.
\<close>

theorem load_model_resolution_counterexample:
  "\<not> path_exists no_files ''model.keras'' \<and> \<not> path_exists no_files h5_fallback
   \<and> load_model no_files ''model.keras''
     = Inl (FileNotFoundError ''Model not found: model.keras. Train first or provide --model path.'')
   \<and> \<not> sublist h5_fallback ''Model not found: model.keras. Train first or provide --model path.''"
  by (simp add: load_model_def no_files_def not_found_message_def h5_fallback_def sublist_code)

text \<open>
  C8. Whenever the classifier returns a non-empty array of scores, \<open>np_argmax\<close> returns an
  index \<open>idx\<close> of a largest score and the classification does not raise. If \<open>idx\<close> is less
  than the length of the vocabulary the predicted label is the vocabulary entry at \<open>idx\<close>;
  otherwise it is \<open>str(idx)\<close>, the decimal representation of \<open>idx\<close>: digits only, no
  leading zero, and read back as a decimal numeral it is \<open>idx\<close>.
\<close>

theorem classify_label:
  assumes "preprocess_landmarks landmarks = Inr features" and "model features \<noteq> []"
  shows "\<exists>idx. np_argmax (model features) = Inr idx
      \<and> idx < length (model features)
      \<and> (\<forall>v \<in> set (model features). v \<le> model features ! idx)
      \<and> classify model labels landmarks = Inr (label_of labels idx, model features ! idx)
      \<and> (idx < length labels \<longrightarrow> label_of labels idx = labels ! idx)
      \<and> (length labels \<le> idx \<longrightarrow>
            label_of labels idx = str_nat idx
            \<and> decimal_value (str_nat idx) = idx
            \<and> list_all is_digit (str_nat idx)
            \<and> (hd (str_nat idx) = CHR ''0'') = (idx = 0))"
proof -
  obtain idx where a: "np_argmax (model features) = Inr idx"
    and b: "idx < length (model features)"
    and c: "\<forall>v \<in> set (model features). v \<le> model features ! idx"
    using np_argmax_first_max [OF assms(2)] by blast
  have "classify model labels landmarks = Inr (label_of labels idx, model features ! idx)"
    by (simp add: classify_def assms(1) a)
  moreover have "idx < length labels \<longrightarrow> label_of labels idx = labels ! idx"
    by (simp add: label_of_def)
  moreover have "length labels \<le> idx \<longrightarrow> label_of labels idx = str_nat idx"
    by (simp add: label_of_def)
  ultimately show ?thesis
    using a b c decimal_value_str_nat [of idx] digits_str_nat [of idx] hd_str_nat [of idx]
    by blast
qed

theorem classify_label_witness:
  "classify (\<lambda>fs. [1 / 10, 1 / 5, 7 / 10]) [''A'', ''B''] [(3, 4), (6, 8)] = Inr (''2'', 7 / 10)
   \<and> classify (\<lambda>fs. [1 / 10, 1 / 5, 7 / 10]) [''A'', ''B'', ''C''] [(3, 4), (6, 8)] = Inr (''C'', 7 / 10)"
proof -
  let ?m = "\<lambda>fs :: real list. [1 / 10, 1 / 5, 7 / 10 :: real]"
  have p: "preprocess_landmarks [(3, 4), (6, 8)] = Inr [0, 0, 3 / 4, 1]"
    by code_simp
  have n: "?m [0, 0, 3 / 4, 1] \<noteq> []"
    by simp
  have i: "np_argmax [1 / 10, 1 / 5, 7 / 10] = Inr 2"
    by code_simp
  have s: "str_nat 2 = ''2''"
    by code_simp
  have l2: "label_of [''A'', ''B''] 2 = ''2''" and l3: "label_of [''A'', ''B'', ''C''] 2 = ''C''"
    by (simp_all add: label_of_def s)
  obtain idx where "np_argmax (?m [0, 0, 3 / 4, 1]) = Inr idx"
    and c2: "classify ?m [''A'', ''B''] [(3, 4), (6, 8)]
        = Inr (label_of [''A'', ''B''] idx, ?m [0, 0, 3 / 4, 1] ! idx)"
    using classify_label [OF p n, of "[''A'', ''B'']"] by blast
  then have idx: "idx = 2" using i by simp
  obtain idx' where "np_argmax (?m [0, 0, 3 / 4, 1]) = Inr idx'"
    and c3: "classify ?m [''A'', ''B'', ''C''] [(3, 4), (6, 8)]
        = Inr (label_of [''A'', ''B'', ''C''] idx', ?m [0, 0, 3 / 4, 1] ! idx')"
    using classify_label [OF p n, of "[''A'', ''B'', ''C'']"] by blast
  then have idx': "idx' = 2" using i by simp
  show ?thesis
    using c2 c3 unfolding idx idx' l2 l3 by simp
qed

section \<open>Properties of the frame loop\<close>

lemma debounce_no_audio: "no_audio a \<Longrightarrow> debounce a st label confidence t = (st, None)"
  by (simp add: debounce_def)

lemma observe_no_hand: "multi_hand_landmarks f = [] \<Longrightarrow> observe model labels f = Inr ([], 0)"
  by (simp add: observe_def)

lemma debounce_empty_label: "debounce a st [] confidence t = (st, None)"
  by (simp add: debounce_def)

text \<open>
  C1, as the code has it. For every observation (label, confidence, now) that reaches the
  speech block, a commit (the label is spoken and the state becomes (label, now)) happens
  if and only if audio is enabled, the label is not the empty string, the confidence is at
  least the threshold, the label differs from the last committed label and
  \<open>now - last_change_time > 0.75\<close>. In every other case the state is unchanged and nothing
  is spoken. A frame that reaches the speech block does exactly that, and a frame without
  a detected hand leaves the state unchanged and speaks nothing.
\<close>

theorem debounce_commit_iff:
  "((snd (debounce a st label confidence t) \<noteq> None) =
       (\<not> no_audio a \<and> label \<noteq> [] \<and> conf a \<le> confidence
        \<and> Some label \<noteq> last_label st \<and> 0.75 < t - last_change_time st))
   \<and> (snd (debounce a st label confidence t) \<noteq> None \<longrightarrow>
        debounce a st label confidence t
          = (\<lparr>last_label = Some label, last_change_time = t\<rparr>, Some label))
   \<and> (snd (debounce a st label confidence t) = None \<longrightarrow>
        debounce a st label confidence t = (st, None))
   \<and> (ok f \<and> key f \<noteq> 27 \<and> observe model labels f = Inr (label, confidence) \<longrightarrow>
        frame_step a model labels st f
          = (fst (debounce a st label confidence (now f)),
             snd (debounce a st label confidence (now f)), Running))
   \<and> (multi_hand_landmarks f = [] \<longrightarrow>
        fst (frame_step a model labels st f) = st
        \<and> fst (snd (frame_step a model labels st f)) = None)"
proof -
  have "multi_hand_landmarks f = [] \<longrightarrow>
        fst (frame_step a model labels st f) = st
        \<and> fst (snd (frame_step a model labels st f)) = None"
    by (simp add: frame_step_def observe_no_hand debounce_empty_label)
  moreover have "ok f \<and> key f \<noteq> 27 \<and> observe model labels f = Inr (label, confidence) \<longrightarrow>
        frame_step a model labels st f
          = (fst (debounce a st label confidence (now f)),
             snd (debounce a st label confidence (now f)), Running)"
    by (simp add: frame_step_def split: prod.splits)
  ultimately show ?thesis
    by (simp add: debounce_def)
qed

theorem debounce_commit_iff_witness:
  "debounce default_args initial_stabilizer ''A'' 0.95 1
     = (\<lparr>last_label = Some ''A'', last_change_time = 1\<rparr>, Some ''A'')
   \<and> debounce default_args \<lparr>last_label = Some ''A'', last_change_time = 1\<rparr> ''B'' 0.95 1.5
     = (\<lparr>last_label = Some ''A'', last_change_time = 1\<rparr>, None)"
proof -
  have a: "snd (debounce default_args initial_stabilizer ''A'' 0.95 1) \<noteq> None"
    by (simp add: debounce_def default_args_def initial_stabilizer_def)
  have b: "snd (debounce default_args \<lparr>last_label = Some ''A'', last_change_time = 1\<rparr> ''B'' 0.95 1.5) = None"
    by (simp add: debounce_def default_args_def)
  from debounce_commit_iff [of default_args initial_stabilizer "''A''" "0.95" 1]
    debounce_commit_iff [of default_args "\<lparr>last_label = Some ''A'', last_change_time = 1\<rparr>" "''B''" "0.95" "1.5"]
    a b
  show ?thesis by blast
qed

text \<open>
  C1 as the specification states it fails: with \<open>--no_audio\<close> set, and also for an empty
  label, the three conditions hold and no commit happens.
\<close>

theorem debounce_commit_iff_counterexample:
  "conf (default_args\<lparr>no_audio := True\<rparr>) \<le> 0.95
   \<and> Some ''A'' \<noteq> last_label initial_stabilizer
   \<and> 0.75 < 1 - last_change_time initial_stabilizer
   \<and> debounce (default_args\<lparr>no_audio := True\<rparr>) initial_stabilizer ''A'' 0.95 1
       = (initial_stabilizer, None)
   \<and> conf default_args \<le> 0.95
   \<and> Some [] \<noteq> last_label initial_stabilizer
   \<and> debounce default_args initial_stabilizer [] 0.95 1 = (initial_stabilizer, None)"
  by (simp add: debounce_def default_args_def initial_stabilizer_def)

text \<open>
  C2, as the code has it. From the initial state \<open>(None, 0.0)\<close>, with threshold 0.80, the
  five observations of the scenario produce exactly one commit, \<open>(B, 0.9)\<close> at the fourth
  observation; the other four leave the state unchanged. The first observation, at
  \<open>t = 0.0\<close>, does not commit: \<open>0.0 - 0.0\<close> is not greater than 0.75.
\<close>

theorem gating_scenario_commits:
  "debounce_all default_args initial_stabilizer gating_scenario
     = ([None, None, None, Some (''B'', 0.9), None],
        \<lparr>last_label = Some ''B'', last_change_time = 0.9\<rparr>)"
  by (simp add: gating_scenario_def debounce_def default_args_def initial_stabilizer_def)

theorem gating_scenario_commits_witness:
  "snd (debounce_all default_args initial_stabilizer gating_scenario)
     = \<lparr>last_label = Some ''B'', last_change_time = 0.9\<rparr>
   \<and> fst (debounce_all default_args initial_stabilizer gating_scenario)
     = [None, None, None, Some (''B'', 0.9), None]"
  using gating_scenario_commits by simp

text \<open>
  C2 as the specification states it fails at the first observation: \<open>(A, 0.95, 0.0)\<close>
  leaves the initial state unchanged and speaks nothing, so the commits are not
  \<open>(A, 0.0)\<close> and \<open>(B, 0.9)\<close>.
\<close>

theorem gating_scenario_commits_counterexample:
  "hd gating_scenario = (''A'', 0.95, 0)
   \<and> debounce default_args initial_stabilizer ''A'' 0.95 0 = (initial_stabilizer, None)
   \<and> fst (debounce_all default_args initial_stabilizer gating_scenario)
       \<noteq> [Some (''A'', 0), None, None, Some (''B'', 0.9), None]"
  by (simp add: gating_scenario_def debounce_def default_args_def initial_stabilizer_def)

text \<open>The loop and the speech block: when every frame is captured, no key 27 is pressed
  and every classification succeeds, the loop ends in the state that the speech block
  reaches on the observations of the frames, and has spoken the labels of its commits.\<close>

lemma run_frames_debounce_all:
  assumes "list_all2 (\<lambda>f (label, confidence, t).
      ok f \<and> key f \<noteq> 27 \<and> observe model labels f = Inr (label, confidence) \<and> now f = t) fs obs"
  shows "run_frames a model labels st fs
     = (snd (debounce_all a st obs),
        map fst (concat (map (\<lambda>c. case c of None \<Rightarrow> [] | Some x \<Rightarrow> [x]) (fst (debounce_all a st obs)))),
        Running)"
  using assms
proof (induction fs obs arbitrary: st rule: list_all2_induct)
  case Nil
  then show ?case by simp
next
  case (Cons f fs ob obs)
  obtain label confidence t where ob: "ob = (label, confidence, t)"
    by (cases ob) auto
  obtain st' spoken where d: "debounce a st label confidence t = (st', spoken)"
    by (cases "debounce a st label confidence t") auto
  have step: "frame_step a model labels st f = (st', spoken, Running)"
    using Cons.hyps(1) d by (simp add: ob frame_step_def)
  have sp: "spoken = None \<or> spoken = Some label"
    using d by (auto simp: debounce_def split: if_splits)
  show ?case
    using sp by (auto simp: ob d step Cons.IH split: prod.splits)
qed

lemma run_frames_no_audio:
  assumes "no_audio a"
  shows "fst (run_frames a model labels st fs) = st \<and> fst (snd (run_frames a model labels st fs)) = []"
proof (induction fs)
  case Nil
  then show ?case by simp
next
  case (Cons f fs)
  have "\<exists>s. frame_step a model labels st f = (st, None, s)"
    using assms by (auto simp: frame_step_def debounce_no_audio split: sum.splits prod.splits)
  then obtain s where step: "frame_step a model labels st f = (st, None, s)" ..
  show ?case
    using Cons.IH by (cases s) (auto simp: step split: prod.splits)
qed

text \<open>
  C10. With \<open>--no_audio\<close> set no commit ever happens: after any number of frames of a run
  that starts in the initial state, the state is still the initial one, \<open>last_label\<close>
  \<open>None\<close> and \<open>last_change_time\<close> 0.0, and nothing has been spoken. The flag guards the
  whole speech block, the update of the state included.
\<close>

theorem no_audio_never_commits:
  assumes "no_audio a"
  shows "fst (run_frames a model labels initial_stabilizer fs) = initial_stabilizer
       \<and> fst (snd (run_frames a model labels initial_stabilizer fs)) = []
       \<and> last_label initial_stabilizer = None \<and> last_change_time initial_stabilizer = 0
       \<and> debounce a st label confidence t = (st, None)"
  using run_frames_no_audio [OF assms, of model labels initial_stabilizer fs] debounce_no_audio [OF assms]
  by (simp add: initial_stabilizer_def)

theorem no_audio_never_commits_witness:
  "fst (run_frames (default_args\<lparr>no_audio := True\<rparr>) (\<lambda>fs. [1 / 20, 19 / 20]) [''A'', ''B''] initial_stabilizer
        [\<lparr>ok = True, now = 100, img_width = 640, img_height = 480,
          multi_hand_landmarks = [[(1 / 2, 1 / 2), (3 / 4, 1 / 4)]], key = 0\<rparr>])
     = initial_stabilizer
   \<and> fst (run_frames default_args (\<lambda>fs. [1 / 20, 19 / 20]) [''A'', ''B''] initial_stabilizer
        [\<lparr>ok = True, now = 100, img_width = 640, img_height = 480,
          multi_hand_landmarks = [[(1 / 2, 1 / 2), (3 / 4, 1 / 4)]], key = 0\<rparr>])
     = \<lparr>last_label = Some ''B'', last_change_time = 100\<rparr>"
proof -
  let ?m = "\<lambda>fs :: real list. [1 / 20, 19 / 20 :: real]"
  let ?f = "\<lparr>ok = True, now = 100, img_width = 640, img_height = 480,
          multi_hand_landmarks = [[(1 / 2, 1 / 2), (3 / 4, 1 / 4)]], key = 0\<rparr>"
  have a: "no_audio (default_args\<lparr>no_audio := True\<rparr>)"
    by simp
  have e: "extract_landmarks 640 480 [(1 / 2, 1 / 2), (3 / 4, 1 / 4)] = [(320, 240), (480, 120)]"
    by (simp add: extract_landmarks_def py_int_def)
  have p: "preprocess_landmarks [(320, 240), (480, 120)] = Inr [0, 0, 1, - 3 / 4]"
    by code_simp
  have i: "np_argmax [1 / 20, 19 / 20] = Inr 1"
    by code_simp
  have "classify ?m [''A'', ''B''] [(320, 240), (480, 120)] = Inr (''B'', 19 / 20)"
    by (simp add: classify_def p i label_of_def)
  then have "observe ?m [''A'', ''B''] ?f = Inr (''B'', 19 / 20)"
    by (simp add: observe_def e)
  then have "frame_step default_args ?m [''A'', ''B''] initial_stabilizer ?f
      = (\<lparr>last_label = Some ''B'', last_change_time = 100\<rparr>, Some ''B'', Running)"
    by (simp add: frame_step_def debounce_def default_args_def initial_stabilizer_def)
  then have b: "fst (run_frames default_args ?m [''A'', ''B''] initial_stabilizer [?f])
      = \<lparr>last_label = Some ''B'', last_change_time = 100\<rparr>"
    by simp
  have c: "fst (run_frames (default_args\<lparr>no_audio := True\<rparr>) ?m [''A'', ''B''] initial_stabilizer [?f])
      = initial_stabilizer"
    using no_audio_never_commits [OF a, where model = ?m and labels = "[''A'', ''B'']" and fs = "[?f]"]
    by blast
  from c b show ?thesis by (rule conjI)
qed

end
